theory Spec2Isabelle
  imports Main
begin

section \<open>Values exchanged with the agent framework\<close>

text \<open>
  Python exceptions are values. Each carries the text that \<^verbatim>\<open>str(e)\<close> returns.
  \<open>OtherException\<close> stands for any other class that derives from \<^verbatim>\<open>Exception\<close>.
  \<open>CancelledError\<close> stands for \<^verbatim>\<open>asyncio.CancelledError\<close> and the other classes that
  derive from \<^verbatim>\<open>BaseException\<close> only: an \<^verbatim>\<open>except Exception\<close> clause does not catch
  them.
\<close>

datatype py_exception =
    IndexError string
  | RuntimeError string
  | ValueError string
  | OtherException string
  | CancelledError string

fun exc_str :: "py_exception \<Rightarrow> string" where
  "exc_str (IndexError m) = m"
| "exc_str (RuntimeError m) = m"
| "exc_str (ValueError m) = m"
| "exc_str (OtherException m) = m"
| "exc_str (CancelledError m) = m"

text \<open>\<^verbatim>\<open>isinstance(e, Exception)\<close>\<close>

fun is_exception :: "py_exception \<Rightarrow> bool" where
  "is_exception (CancelledError m) = False"
| "is_exception _ = True"

text \<open>
  The value stored under the key \<^verbatim>\<open>'id'\<close> of a tool call is a string or Python's
  \<^verbatim>\<open>None\<close>.
\<close>

datatype pyid = IdNone | IdStr string

text \<open>
  A tool call is a dictionary read only through \<^verbatim>\<open>.get\<close>: each of its three keys may
  be absent. The type \<open>'v\<close> is the type of opaque payloads (tool arguments, tool results,
  todo items), which the service forwards or compares by value and never inspects.
\<close>

datatype 'v tool_call =
  ToolCall (tc_id: "pyid option") (tc_name: "string option") (tc_args: "'v option")

text \<open>The content of an AI message is a string or something else (a list of blocks).\<close>

datatype 'v ai_content = StrContent string | NonStrContent 'v

text \<open>
  Messages of a snapshot: \<open>AIMessage\<close> instances, objects whose \<^verbatim>\<open>type\<close> is
  \<^verbatim>\<open>'tool'\<close> (with the attribute \<^verbatim>\<open>tool_call_id\<close>, if they have one, and their
  content), and all others (human and system messages).
\<close>

datatype 'v message =
    AIMessage "'v ai_content" "'v tool_call list"
  | ToolMessage "string option" 'v
  | OtherMessage

text \<open>
  One value yielded by \<^verbatim>\<open>agent.astream(..., stream_mode="values")\<close>: a dictionary
  whose keys \<^verbatim>\<open>messages\<close>, \<^verbatim>\<open>todos\<close> and \<^verbatim>\<open>files\<close> may each be absent. Of the
  files dictionary only \<^verbatim>\<open>list(chunk["files"].keys())\<close> is used: the keys in the
  dictionary's order.
\<close>

record 'v chunk =
  messages :: "'v message list option"
  todos :: "'v list option"
  files :: "string list option"

text \<open>
  The asynchronous iterator, run to its end: the chunks it yields, then either exhaustion
  (\<open>None\<close>) or the exception that ends the iteration. That exception is raised by the
  framework at \<^verbatim>\<open>async for\<close>, or it is a cancellation delivered at the
  \<^verbatim>\<open>await asyncio.sleep(STREAM_DELAY)\<close> that follows the last chunk yielded; both leave
  the loop after the same chunks.
\<close>

record 'v source =
  yielded :: "'v chunk list"
  raised :: "py_exception option"

text \<open>
  Every frame the server writes to the socket. \<open>ToolCallEvent\<close> always has status
  \<^verbatim>\<open>pending\<close>, \<open>ToolResultEvent\<close> always has status \<^verbatim>\<open>completed\<close>, \<open>StreamChunk\<close>
  always has role \<^verbatim>\<open>assistant\<close>, and \<open>Complete\<close> always has the message
  \<^verbatim>\<open>Agent finished processing\<close>. In \<open>ToolCallEvent\<close> the arguments \<open>None\<close> stand for the
  default \<^verbatim>\<open>{}\<close> of \<^verbatim>\<open>tool_call.get('args', {})\<close>.
\<close>

datatype 'v event =
    StreamChunk (delta: string) (fullContent: string)
  | ToolCallEvent (tool: string) (args: "'v option") (call_id: pyid)
  | ToolResultEvent (result_id: pyid) (result: 'v)
  | Todos "'v list"
  | Files "string list"
  | Complete string
  | Error string
  | Initialized string string
  | StreamStart
  | ProjectChanged string
  | ModeChanged string
  | CurrentMode string

section \<open>stream\_response\<close>

text \<open>The four local variables that \<^verbatim>\<open>stream_response\<close> keeps across chunks.\<close>

record 'v diff_state =
  last_ai_content :: string
  last_todos :: "'v list"
  last_files :: "string list"
  current_tool_calls :: "'v tool_call list"

definition initial_state :: "'v diff_state" where
  "initial_state =
     \<lparr>last_ai_content = [], last_todos = [], last_files = [], current_tool_calls = []\<rparr>"

text \<open>
  \<^verbatim>\<open>last_message.content if isinstance(last_message.content, str) else ""\<close>
\<close>

fun current_content_of :: "'v ai_content \<Rightarrow> string" where
  "current_content_of (StrContent s) = s"
| "current_content_of (NonStrContent _) = []"

text \<open>
  Lines 131 to 139: the slice \<^verbatim>\<open>current_content[len(last_ai_content):]\<close> is
  \<open>drop\<close>, and an empty delta is not sent.
\<close>

definition stream_chunk_events :: "string \<Rightarrow> string \<Rightarrow> 'v event list" where
  "stream_chunk_events last_content current_content =
     (if current_content \<noteq> last_content
      then (let d = drop (length last_content) current_content
            in if d \<noteq> [] then [StreamChunk d current_content] else [])
      else [])"

text \<open>\<^verbatim>\<open>tool_call.get('id', '')\<close> and \<^verbatim>\<open>tool_call.get('name', 'unknown')\<close>\<close>

definition get_id :: "'v tool_call \<Rightarrow> pyid" where
  "get_id tc = (case tc_id tc of None \<Rightarrow> IdStr [] | Some i \<Rightarrow> i)"

definition get_name :: "'v tool_call \<Rightarrow> string" where
  "get_name tc = (case tc_name tc of None \<Rightarrow> ''unknown'' | Some n \<Rightarrow> n)"

text \<open>
  Lines 143 to 154: the loop over \<^verbatim>\<open>last_message.tool_calls\<close>. The first argument is
  \<^verbatim>\<open>current_tool_calls\<close>; the result is the events yielded and the list as the loop
  leaves it.
\<close>

fun tool_call_events ::
  "'v tool_call list \<Rightarrow> 'v tool_call list \<Rightarrow> 'v event list \<times> 'v tool_call list" where
  "tool_call_events seen [] = ([], seen)"
| "tool_call_events seen (tc # tcs) =
     (if get_id tc \<notin> set (map get_id seen)
      then (case tool_call_events (seen @ [tc]) tcs of
              (evs, seen') \<Rightarrow> (ToolCallEvent (get_name tc) (tc_args tc) (get_id tc) # evs, seen'))
      else tool_call_events seen tcs)"

text \<open>
  Lines 157 to 167: every message of the chunk whose type is \<^verbatim>\<open>'tool'\<close> and whose
  \<^verbatim>\<open>tool_call_id\<close> is truthy yields a tool-result event.
\<close>

fun tool_result_event :: "'v message \<Rightarrow> 'v event list" where
  "tool_result_event (ToolMessage (Some i) c) =
     (if i \<noteq> [] then [ToolResultEvent (IdStr i) c] else [])"
| "tool_result_event _ = []"

definition tool_result_events :: "'v message list \<Rightarrow> 'v event list" where
  "tool_result_events msgs = concat (map tool_result_event msgs)"

text \<open>
  Lines 124 to 154. \<^verbatim>\<open>chunk["messages"][-1]\<close> raises IndexError on an empty list,
  before anything of this chunk is yielded.
\<close>

definition last_message_events ::
  "'v diff_state \<Rightarrow> 'v message list \<Rightarrow> py_exception + ('v event list \<times> 'v diff_state)" where
  "last_message_events st msgs =
     (if msgs = [] then Inl (IndexError ''list index out of range'')
      else (case last msgs of
              AIMessage c tcs \<Rightarrow>
                (let current_content = current_content_of c;
                     ev1 = stream_chunk_events (last_ai_content st) current_content
                 in case tool_call_events (current_tool_calls st) tcs of
                      (ev2, seen) \<Rightarrow>
                        Inr (ev1 @ ev2,
                             st\<lparr>last_ai_content := current_content,
                                current_tool_calls := seen\<rparr>))
            | _ \<Rightarrow> Inr ([], st)))"

text \<open>Lines 170 to 177 and lines 180 to 187.\<close>

definition todos_events ::
  "'v diff_state \<Rightarrow> 'v list option \<Rightarrow> 'v event list \<times> 'v diff_state" where
  "todos_events st t =
     (case t of
        None \<Rightarrow> ([], st)
      | Some current_todos \<Rightarrow>
          if current_todos \<noteq> last_todos st
          then ([Todos current_todos], st\<lparr>last_todos := current_todos\<rparr>)
          else ([], st))"

definition files_events ::
  "'v diff_state \<Rightarrow> string list option \<Rightarrow> 'v event list \<times> 'v diff_state" where
  "files_events st f =
     (case f of
        None \<Rightarrow> ([], st)
      | Some current_files \<Rightarrow>
          if current_files \<noteq> last_files st
          then ([Files current_files], st\<lparr>last_files := current_files\<rparr>)
          else ([], st))"

text \<open>The body of the \<^verbatim>\<open>async for\<close> loop, lines 123 to 190, for one chunk.\<close>

definition process_chunk ::
  "'v diff_state \<Rightarrow> 'v chunk \<Rightarrow> py_exception + ('v event list \<times> 'v diff_state)" where
  "process_chunk st c =
     (case (case messages c of
              None \<Rightarrow> Inr ([], st)
            | Some msgs \<Rightarrow> last_message_events st msgs) of
        Inl e \<Rightarrow> Inl e
      | Inr (ev_m, st1) \<Rightarrow>
          (let ev_r = (case messages c of None \<Rightarrow> [] | Some msgs \<Rightarrow> tool_result_events msgs)
           in case todos_events st1 (todos c) of
                (ev_t, st2) \<Rightarrow>
                  (case files_events st2 (files c) of
                     (ev_f, st3) \<Rightarrow> Inr (ev_m @ ev_r @ ev_t @ ev_f, st3))))"

text \<open>
  A generator, run until it ends, is the events it yields and the exception it raises, if
  any. The clause \<^verbatim>\<open>except Exception as e\<close> of lines 199 to 203 yields one error event
  for an exception that derives from \<^verbatim>\<open>Exception\<close>; any other exception leaves the
  generator.
\<close>

definition except_Exception :: "py_exception \<Rightarrow> 'v event list \<times> py_exception option" where
  "except_Exception e = (if is_exception e then ([Error (exc_str e)], None) else ([], Some e))"

text \<open>
  The \<^verbatim>\<open>try\<close> block, lines 116 to 203: the loop over the chunks, then the completion
  event, unless an exception of the loop body or of the iterator ends the loop.
\<close>

fun stream_loop ::
  "'v diff_state \<Rightarrow> 'v chunk list \<Rightarrow> py_exception option
     \<Rightarrow> 'v event list \<times> py_exception option" where
  "stream_loop st [] None = ([Complete (last_ai_content st)], None)"
| "stream_loop st [] (Some e) = except_Exception e"
| "stream_loop st (c # cs) r =
     (case process_chunk st c of
        Inl e \<Rightarrow> except_Exception e
      | Inr (evs, st') \<Rightarrow>
          (case stream_loop st' cs r of (evs', raised') \<Rightarrow> (evs @ evs', raised')))"

text \<open>
  \<^verbatim>\<open>if thread_id: config["configurable"] = {"thread_id": thread_id}\<close>: the
  configuration holds the thread id when it is given and not empty.
\<close>

definition config_of :: "string option \<Rightarrow> string option" where
  "config_of thread_id =
     (case thread_id of None \<Rightarrow> None | Some t \<Rightarrow> if t \<noteq> [] then Some t else None)"

text \<open>
  \<^verbatim>\<open>AgentService.stream_response\<close>. The first argument is the framework's
  \<^verbatim>\<open>astream\<close>: what the agent yields for a user message and a configuration. The
  result is the events the generator yields and the exception it raises, if any. For an
  agent that is \<^verbatim>\<open>None\<close> it raises before the \<^verbatim>\<open>try\<close>, having yielded nothing.
\<close>

definition stream_response ::
  "('h \<Rightarrow> string \<Rightarrow> string option \<Rightarrow> 'v source) \<Rightarrow> 'h option \<Rightarrow> string \<Rightarrow> string option
     \<Rightarrow> 'v event list \<times> py_exception option" where
  "stream_response astream agent user_message thread_id =
     (case agent of
        None \<Rightarrow> ([], Some (RuntimeError ''Agent not initialized''))
      | Some a \<Rightarrow>
          (let src = astream a user_message (config_of thread_id)
           in stream_loop initial_state (yielded src) (raised src)))"

section \<open>Prompt templates\<close>

text \<open>
  The prompt texts of \<^verbatim>\<open>prompt_templates.py\<close> are opaque constants; only which one is
  selected matters.
\<close>

datatype prompt =
    FICTION_MAIN_AGENT | NON_FICTION_MAIN_AGENT | ACADEMIC_MAIN_AGENT
  | FICTION_PLANNING_AGENT | NON_FICTION_PLANNING_AGENT | ACADEMIC_PLANNING_AGENT
  | FICTION_WRITING_AGENT | NON_FICTION_WRITING_AGENT | ACADEMIC_WRITING_AGENT
  | FICTION_EDITING_AGENT | NON_FICTION_EDITING_AGENT | ACADEMIC_EDITING_AGENT

definition MAIN_AGENT_TEMPLATES :: "(string \<times> prompt) list" where
  "MAIN_AGENT_TEMPLATES =
     [(''fiction'', FICTION_MAIN_AGENT),
      (''non-fiction'', NON_FICTION_MAIN_AGENT),
      (''academic'', ACADEMIC_MAIN_AGENT)]"

definition PLANNING_AGENT_TEMPLATES :: "(string \<times> prompt) list" where
  "PLANNING_AGENT_TEMPLATES =
     [(''fiction'', FICTION_PLANNING_AGENT),
      (''non-fiction'', NON_FICTION_PLANNING_AGENT),
      (''academic'', ACADEMIC_PLANNING_AGENT)]"

definition WRITING_AGENT_TEMPLATES :: "(string \<times> prompt) list" where
  "WRITING_AGENT_TEMPLATES =
     [(''fiction'', FICTION_WRITING_AGENT),
      (''non-fiction'', NON_FICTION_WRITING_AGENT),
      (''academic'', ACADEMIC_WRITING_AGENT)]"

definition EDITING_AGENT_TEMPLATES :: "(string \<times> prompt) list" where
  "EDITING_AGENT_TEMPLATES =
     [(''fiction'', FICTION_EDITING_AGENT),
      (''non-fiction'', NON_FICTION_EDITING_AGENT),
      (''academic'', ACADEMIC_EDITING_AGENT)]"

text \<open>\<^verbatim>\<open>TEMPLATES.get(mode, default)\<close>\<close>

definition dict_get :: "(string \<times> 'a) list \<Rightarrow> string \<Rightarrow> 'a \<Rightarrow> 'a" where
  "dict_get d k dflt = (case map_of d k of None \<Rightarrow> dflt | Some v \<Rightarrow> v)"

definition get_main_agent_prompt :: "string \<Rightarrow> prompt" where
  "get_main_agent_prompt mode = dict_get MAIN_AGENT_TEMPLATES mode FICTION_MAIN_AGENT"

record subagent_config =
  name :: string
  description :: string
  prompt :: prompt
  tools :: "string list"

definition get_subagent_configs :: "string \<Rightarrow> subagent_config list" where
  "get_subagent_configs mode =
     (let planning_prompt = dict_get PLANNING_AGENT_TEMPLATES mode FICTION_PLANNING_AGENT;
          writing_prompt = dict_get WRITING_AGENT_TEMPLATES mode FICTION_WRITING_AGENT;
          editing_prompt = dict_get EDITING_AGENT_TEMPLATES mode FICTION_EDITING_AGENT;
          planning_config =
            \<lparr>name = ''planning-agent'',
             description = ''Expert at creating book outlines, structures, and planning. Use for organizing ideas and creating comprehensive outlines.'',
             prompt = planning_prompt,
             tools = [''read_real_file'', ''write_real_file'', ''list_real_files'']\<rparr>;
          writing_config =
            \<lparr>name = ''writing-agent'',
             description = ''Specialized in writing content. Use for drafting chapters and content that requires consistent voice and style.'',
             prompt = writing_prompt,
             tools = [''read_real_file'', ''write_real_file'', ''edit_real_file'']\<rparr>;
          editing_config =
            \<lparr>name = ''editing-agent'',
             description = ''Expert editor for refining content, fixing inconsistencies, and improving quality. Use for revision and polish.'',
             prompt = editing_prompt,
             tools = [''read_real_file'', ''edit_real_file'']\<rparr>
      in [planning_config, writing_config, editing_config])"

definition get_available_modes :: "string list" where
  "get_available_modes = map fst MAIN_AGENT_TEMPLATES"

section \<open>AgentService\<close>

text \<open>
  What the service calls outside this repository, as parameters:
  \<^item> \<open>resolve\<close>: \<^verbatim>\<open>Path(p).resolve()\<close>, which returns the resolved path or raises
    (a \<^verbatim>\<open>ValueError\<close> for a path with an embedded null byte);
  \<^item> \<open>OPENROUTER_API_KEY\<close>: the constant of \<^verbatim>\<open>config.py\<close>, read from the environment;
  \<^item> \<open>async_create_deep_agent\<close>: the framework's constructor, given the project path
    the file tools are scoped to, the instructions and the subagents; it returns an agent
    handle or raises;
  \<^item> \<open>astream\<close>: what an agent handle yields for a user message and a configuration.
\<close>

record ('h, 'v) framework =
  resolve :: "string \<Rightarrow> py_exception + string"
  OPENROUTER_API_KEY :: string
  async_create_deep_agent ::
    "string \<Rightarrow> prompt \<Rightarrow> subagent_config list \<Rightarrow> py_exception + 'h"
  astream :: "'h \<Rightarrow> string \<Rightarrow> string option \<Rightarrow> 'v source"

record 'h agent_service =
  project_path :: string
  author_mode :: string
  agent :: "'h option"

text \<open>
  \<^verbatim>\<open>get_default_model\<close> of \<^verbatim>\<open>model_config.py\<close> raises when the key is empty; the model
  object it returns otherwise is not inspected.
\<close>

definition get_default_model :: "('h, 'v) framework \<Rightarrow> py_exception option" where
  "get_default_model fw =
     (if OPENROUTER_API_KEY fw = []
      then Some (ValueError ''CLAUDE_API_KEY not found. Please set it in your .env file'')
      else None)"

text \<open>
  \<^verbatim>\<open>create_file_tools\<close> of \<^verbatim>\<open>file_tools.py\<close> resolves the project path once more and
  returns four tools scoped to the resolved root. The tools are represented by that root
  and by their names.
\<close>

definition create_file_tools :: "('h, 'v) framework \<Rightarrow> string \<Rightarrow> py_exception + string" where
  "create_file_tools fw path = resolve fw path"

definition file_tool_names :: "string list" where
  "file_tool_names = [''read_real_file'', ''write_real_file'', ''list_real_files'', ''edit_real_file'']"

text \<open>
  A method that mutates the service returns the exception it raises, if any, and the
  service as the call leaves it: a field assigned before the exception stays assigned.
\<close>

definition initialize_agent ::
  "('h, 'v) framework \<Rightarrow> 'h agent_service \<Rightarrow> py_exception option \<times> 'h agent_service" where
  "initialize_agent fw svc =
     (case create_file_tools fw (project_path svc) of
        Inl e \<Rightarrow> (Some e, svc)
      | Inr project_root \<Rightarrow>
          (case get_default_model fw of
             Some e \<Rightarrow> (Some e, svc)
           | None \<Rightarrow>
               (let main_agent_prompt = get_main_agent_prompt (author_mode svc);
                    subagent_configs = get_subagent_configs (author_mode svc);
                    subagents =
                      map (\<lambda>config. config\<lparr>tools := filter (\<lambda>n. n \<in> set file_tool_names) (tools config)\<rparr>)
                        subagent_configs
                in case async_create_deep_agent fw project_root main_agent_prompt subagents of
                     Inl e \<Rightarrow> (Some e, svc)
                   | Inr a \<Rightarrow> (None, svc\<lparr>agent := Some a\<rparr>))))"

text \<open>
  \<^verbatim>\<open>AgentService.__init__\<close>: when it raises, in resolving the path or in building the
  agent, no object is returned.
\<close>

definition new_agent_service ::
  "('h, 'v) framework \<Rightarrow> string \<Rightarrow> string \<Rightarrow> py_exception + 'h agent_service" where
  "new_agent_service fw path mode =
     (case resolve fw path of
        Inl e \<Rightarrow> Inl e
      | Inr resolved \<Rightarrow>
          (case initialize_agent fw
                  \<lparr>project_path = resolved, author_mode = mode, agent = None\<rparr> of
             (Some e, _) \<Rightarrow> Inl e
           | (None, svc) \<Rightarrow> Inr svc))"

text \<open>
  \<^verbatim>\<open>change_project\<close>: when resolving the new path raises, nothing has been assigned;
  the rebuild runs after the assignment of the resolved path.
\<close>

definition change_project ::
  "('h, 'v) framework \<Rightarrow> 'h agent_service \<Rightarrow> string \<Rightarrow> py_exception option \<times> 'h agent_service" where
  "change_project fw svc new_project_path =
     (case resolve fw new_project_path of
        Inl e \<Rightarrow> (Some e, svc)
      | Inr resolved \<Rightarrow> initialize_agent fw (svc\<lparr>project_path := resolved\<rparr>))"

text \<open>
  Python's \<^verbatim>\<open>repr\<close> of a string without quotes or escapes, and of a list of such
  strings, as the f-string of \<^verbatim>\<open>change_mode\<close> prints the available modes.
\<close>

definition quoted :: "string \<Rightarrow> string" where
  "quoted s = CHR 0x27 # s @ [CHR 0x27]"

fun comma_separated :: "string list \<Rightarrow> string" where
  "comma_separated [] = []"
| "comma_separated [x] = x"
| "comma_separated (x # y # ys) = x @ '', '' @ comma_separated (y # ys)"

definition repr_list :: "string list \<Rightarrow> string" where
  "repr_list xs = ''['' @ comma_separated (map quoted xs) @ '']''"

definition invalid_mode_message :: "string \<Rightarrow> string" where
  "invalid_mode_message new_mode =
     ''Invalid mode '' @ quoted new_mode @ ''. Available modes: '' @ repr_list get_available_modes"

definition change_mode ::
  "('h, 'v) framework \<Rightarrow> 'h agent_service \<Rightarrow> string \<Rightarrow> py_exception option \<times> 'h agent_service" where
  "change_mode fw svc new_mode =
     (if new_mode \<notin> set get_available_modes
      then (Some (ValueError (invalid_mode_message new_mode)), svc)
      else initialize_agent fw (svc\<lparr>author_mode := new_mode\<rparr>))"

definition get_current_mode :: "'h agent_service \<Rightarrow> string" where
  "get_current_mode svc = author_mode svc"

section \<open>The WebSocket endpoint\<close>

text \<open>
  An inbound frame, by its \<^verbatim>\<open>type\<close>, with the fields the handler reads through
  \<^verbatim>\<open>data.get\<close> (\<open>None\<close>: the key is absent): init has \<^verbatim>\<open>project_path\<close> and
  \<^verbatim>\<open>author_mode\<close>, message has \<^verbatim>\<open>content\<close> and \<^verbatim>\<open>thread_id\<close>.
\<close>

datatype frame =
    InitFrame "string option" "string option"
  | MessageFrame "string option" "string option"
  | ChangeProjectFrame "string option"
  | ChangeModeFrame "string option"
  | GetModeFrame
  | UnknownFrame string

text \<open>Python's \<^verbatim>\<open>not s\<close> for a value that is a string or absent.\<close>

definition falsy :: "string option \<Rightarrow> bool" where
  "falsy s = (s = None \<or> s = Some [])"

text \<open>\<^verbatim>\<open>data.get("author_mode", "fiction")\<close>\<close>

definition author_mode_of :: "string option \<Rightarrow> string" where
  "author_mode_of mode_opt = (case mode_opt of None \<Rightarrow> ''fiction'' | Some m \<Rightarrow> m)"

text \<open>
  One iteration of the \<^verbatim>\<open>while True\<close> loop of \<^verbatim>\<open>websocket_endpoint\<close>: the frames sent
  for one received frame, the local variable \<^verbatim>\<open>agent_service\<close> afterwards (\<open>None\<close>
  until an init succeeds), and the exception that leaves the loop, if any. The handlers
  catch with \<^verbatim>\<open>except Exception\<close>, and so does the clause around the loop: an exception
  outside \<^verbatim>\<open>Exception\<close> leaves the endpoint, whose \<^verbatim>\<open>finally\<close> closes the socket.
  With \<open>None\<close> the branch returns to the head of the loop.
\<close>

fun handle_frame ::
  "('h, 'v) framework \<Rightarrow> 'h agent_service option \<Rightarrow> frame
     \<Rightarrow> 'v event list \<times> 'h agent_service option \<times> py_exception option" where
  "handle_frame fw agent_service (InitFrame path_opt mode_opt) =
     (let mode = author_mode_of mode_opt
      in if falsy path_opt
         then ([Error ''project_path is required for initialization''], agent_service, None)
         else (case new_agent_service fw (the path_opt) mode of
                 Inr svc \<Rightarrow> ([Initialized (the path_opt) mode], Some svc, None)
               | Inl e \<Rightarrow>
                   if is_exception e
                   then ([Error (''Failed to initialize agent: '' @ exc_str e)], agent_service, None)
                   else ([], agent_service, Some e)))"
| "handle_frame fw agent_service (MessageFrame content_opt thread_id) =
     (case agent_service of
        None \<Rightarrow>
          ([Error (''Agent not initialized. Send '' @ quoted ''init'' @ '' first.'')],
           agent_service, None)
      | Some svc \<Rightarrow>
          (let user_message = (case content_opt of None \<Rightarrow> [] | Some c \<Rightarrow> c)
           in if user_message = []
              then ([Error ''Message content is required''], agent_service, None)
              else (case stream_response (astream fw) (agent svc) user_message thread_id of
                      (evs, None) \<Rightarrow> (StreamStart # evs, agent_service, None)
                    | (evs, Some e) \<Rightarrow>
                        if is_exception e
                        then (StreamStart # evs @ [Error (''Agent error: '' @ exc_str e)],
                              agent_service, None)
                        else (StreamStart # evs, agent_service, Some e))))"
| "handle_frame fw agent_service (ChangeProjectFrame new_project_path) =
     (case agent_service of
        None \<Rightarrow> ([Error ''Agent not initialized''], agent_service, None)
      | Some svc \<Rightarrow>
          if falsy new_project_path
          then ([Error ''project_path is required''], agent_service, None)
          else (case change_project fw svc (the new_project_path) of
                  (None, svc') \<Rightarrow> ([ProjectChanged (the new_project_path)], Some svc', None)
                | (Some e, svc') \<Rightarrow>
                    if is_exception e
                    then ([Error (''Failed to change project: '' @ exc_str e)], Some svc', None)
                    else ([], Some svc', Some e)))"
| "handle_frame fw agent_service (ChangeModeFrame new_mode) =
     (case agent_service of
        None \<Rightarrow> ([Error ''Agent not initialized''], agent_service, None)
      | Some svc \<Rightarrow>
          if falsy new_mode
          then ([Error ''mode is required''], agent_service, None)
          else (case change_mode fw svc (the new_mode) of
                  (None, svc') \<Rightarrow> ([ModeChanged (the new_mode)], Some svc', None)
                | (Some (ValueError m), svc') \<Rightarrow> ([Error m], Some svc', None)
                | (Some e, svc') \<Rightarrow>
                    if is_exception e
                    then ([Error (''Failed to change mode: '' @ exc_str e)], Some svc', None)
                    else ([], Some svc', Some e)))"
| "handle_frame fw agent_service GetModeFrame =
     (case agent_service of
        None \<Rightarrow> ([Error ''Agent not initialized''], agent_service, None)
      | Some svc \<Rightarrow> ([CurrentMode (get_current_mode svc)], agent_service, None))"
| "handle_frame fw agent_service (UnknownFrame message_type) =
     ([Error (''Unknown message type: '' @ message_type)], agent_service, None)"

text \<open>
  The loop over the frames received until the client disconnects or an exception leaves
  the loop: the frames sent, in order, \<^verbatim>\<open>agent_service\<close> at the end, and that exception.
\<close>

fun websocket_endpoint ::
  "('h, 'v) framework \<Rightarrow> 'h agent_service option \<Rightarrow> frame list
     \<Rightarrow> 'v event list \<times> 'h agent_service option \<times> py_exception option" where
  "websocket_endpoint fw agent_service [] = ([], agent_service, None)"
| "websocket_endpoint fw agent_service (f # fs) =
     (case handle_frame fw agent_service f of
        (evs, agent_service', Some e) \<Rightarrow> (evs, agent_service', Some e)
      | (evs, agent_service', None) \<Rightarrow>
          (case websocket_endpoint fw agent_service' fs of
             (evs', final, raised') \<Rightarrow> (evs @ evs', final, raised')))"

section \<open>Notions the properties are stated with\<close>

text \<open>The deltas of the stream-chunk events of an event sequence, in emission order.\<close>

fun delta_of :: "'v event \<Rightarrow> string list" where
  "delta_of (StreamChunk d f) = [d]"
| "delta_of _ = []"

definition stream_chunk_deltas :: "'v event list \<Rightarrow> string list" where
  "stream_chunk_deltas evs = concat (map delta_of evs)"

fun is_todos :: "'v event \<Rightarrow> bool" where
  "is_todos (Todos _) = True"
| "is_todos _ = False"

fun is_files :: "'v event \<Rightarrow> bool" where
  "is_files (Files _) = True"
| "is_files _ = False"

fun is_terminal :: "'v event \<Rightarrow> bool" where
  "is_terminal (Complete _) = True"
| "is_terminal (Error _) = True"
| "is_terminal _ = False"

text \<open>
  The content of a snapshot, as \<^verbatim>\<open>stream_response\<close> reads it: the content of the last
  message when that is an AI message. A chunk without messages, or whose last message is
  not an AI message, carries no content.
\<close>

definition snapshot_content :: "'v chunk \<Rightarrow> string option" where
  "snapshot_content c =
     (case messages c of
        None \<Rightarrow> None
      | Some msgs \<Rightarrow>
          if msgs = [] then None
          else (case last msgs of AIMessage ct tcs \<Rightarrow> Some (current_content_of ct) | _ \<Rightarrow> None))"

fun snapshot_contents :: "'v chunk list \<Rightarrow> string list" where
  "snapshot_contents [] = []"
| "snapshot_contents (c # cs) =
     (case snapshot_content c of
        None \<Rightarrow> snapshot_contents cs
      | Some s \<Rightarrow> s # snapshot_contents cs)"

text \<open>
  The chunks the loop consumes: all of them up to the first one whose message list is
  empty, where the loop body raises.
\<close>

definition consumed :: "'v chunk list \<Rightarrow> 'v chunk list" where
  "consumed cs = takeWhile (\<lambda>c. messages c \<noteq> Some []) cs"



text \<open>Append-only: every content starts with the one before it.\<close>

fun append_only :: "string list \<Rightarrow> bool" where
  "append_only [] = True"
| "append_only [x] = True"
| "append_only (x # y # ys) = (take (length x) y = x \<and> append_only (y # ys))"

text \<open>The content of the final snapshot that has one; empty when none has.\<close>

definition final_content :: "'v chunk list \<Rightarrow> string" where
  "final_content cs = last ([] # snapshot_contents cs)"

fun is_stream_chunk :: "'v event \<Rightarrow> bool" where
  "is_stream_chunk (StreamChunk _ _) = True"
| "is_stream_chunk _ = False"

text \<open>
  The events of a turn grouped by the chunk during whose processing they are yielded,
  up to the chunk at which the loop body raises.
\<close>

fun chunk_events :: "'v diff_state \<Rightarrow> 'v chunk list \<Rightarrow> 'v event list list" where
  "chunk_events st [] = []"
| "chunk_events st (c # cs) =
     (case process_chunk st c of
        Inl e \<Rightarrow> []
      | Inr (evs, st') \<Rightarrow> evs # chunk_events st' cs)"

text \<open>The ids of the tool-call (pending) events of an event sequence, in emission order.\<close>

fun pending_id :: "'v event \<Rightarrow> pyid list" where
  "pending_id (ToolCallEvent n a i) = [i]"
| "pending_id _ = []"

definition pending_ids :: "'v event list \<Rightarrow> pyid list" where
  "pending_ids evs = concat (map pending_id evs)"

section \<open>Concrete inputs\<close>

text \<open>
  A snapshot whose message list is the user's message followed by one AI message with the
  given text and no tool calls.
\<close>

definition text_snapshot :: "string \<Rightarrow> string chunk" where
  "text_snapshot s =
     \<lparr>messages = Some [OtherMessage, AIMessage (StrContent s) []], todos = None, files = None\<rparr>"

text \<open>A snapshot without messages, with the given todos and the given files keys.\<close>

definition state_snapshot :: "string list \<Rightarrow> string list \<Rightarrow> string chunk" where
  "state_snapshot ts ks = \<lparr>messages = None, todos = Some ts, files = Some ks\<rparr>"

text \<open>An agent that yields the given chunks for every message, and is then exhausted.\<close>

definition yields :: "string chunk list \<Rightarrow> unit \<Rightarrow> string \<Rightarrow> string option \<Rightarrow> string source" where
  "yields cs a user_message config = \<lparr>yielded = cs, raised = None\<rparr>"



text \<open>
  A turn with one tool call, as \<^verbatim>\<open>stream_mode="values"\<close> delivers it: every snapshot
  holds the whole message list so far. The agent first calls a tool, then the tool's
  result arrives, then the agent answers.
\<close>

definition tool_turn :: "string chunk list" where
  "tool_turn =
     (let call = AIMessage (StrContent [])
                   [ToolCall (Some (IdStr ''t1'')) (Some ''read_real_file'') None];
          answer = ToolMessage (Some ''t1'') ''ok''
      in [\<lparr>messages = Some [OtherMessage, call], todos = None, files = None\<rparr>,
          \<lparr>messages = Some [OtherMessage, call, answer], todos = None, files = None\<rparr>,
          \<lparr>messages = Some [OtherMessage, call, answer, AIMessage (StrContent ''done'') []],
           todos = None, files = None\<rparr>])"

text \<open>
  A framework whose agent handles record the project root and the instructions they were
  built with, whose constructor raises for the project path \<^verbatim>\<open>/unreachable\<close>, and where
  resolving a path with a null byte raises.
\<close>

definition example_framework :: "(string \<times> prompt, string) framework" where
  "example_framework =
     \<lparr>resolve =
        (\<lambda>p. if CHR 0x00 \<in> set p then Inl (ValueError ''embedded null byte'') else Inr p),
      OPENROUTER_API_KEY = ''key'',
      async_create_deep_agent =
        (\<lambda>root instructions subagents.
           if root = ''/unreachable'' then Inl (OtherException ''boom'')
           else Inr (root, instructions)),
      astream = (\<lambda>a user_message config. \<lparr>yielded = [], raised = None\<rparr>)\<rparr>"

text \<open>The service of a session initialized for the project \<^verbatim>\<open>/book\<close> in fiction mode.\<close>

definition example_service :: "(string \<times> prompt) agent_service" where
  "example_service =
     \<lparr>project_path = ''/book'', author_mode = ''fiction'',
      agent = Some (''/book'', FICTION_MAIN_AGENT)\<rparr>"

section \<open>Events of one chunk\<close>

lemma tool_call_events_kind:
  "tool_call_events seen tcs = (evs, seen') \<Longrightarrow> e \<in> set evs \<Longrightarrow> \<exists>n a i. e = ToolCallEvent n a i"
proof (induction tcs arbitrary: seen evs)
  case Nil
  then show ?case by simp
next
  case (Cons tc tcs)
  show ?case
  proof (cases "get_id tc \<in> set (map get_id seen)")
    case True
    with Cons show ?thesis by simp
  next
    case False
    obtain evs1 s1 where r: "tool_call_events (seen @ [tc]) tcs = (evs1, s1)"
      by (cases "tool_call_events (seen @ [tc]) tcs")
    with False Cons.prems(1)
    have ev: "evs = ToolCallEvent (get_name tc) (tc_args tc) (get_id tc) # evs1" and "s1 = seen'"
      by simp_all
    with r have "tool_call_events (seen @ [tc]) tcs = (evs1, seen')" by simp
    from Cons.IH [OF this] ev Cons.prems(2) show ?thesis by auto
  qed
qed

lemma tool_result_events_kind:
  "e \<in> set (tool_result_events msgs) \<Longrightarrow> \<exists>i r. e = ToolResultEvent i r"
proof -
  have "e \<in> set (tool_result_event m) \<Longrightarrow> \<exists>i r. e = ToolResultEvent i r" for m :: "'a message"
    by (cases m rule: tool_result_event.cases) (auto split: if_splits)
  then show "e \<in> set (tool_result_events msgs) \<Longrightarrow> \<exists>i r. e = ToolResultEvent i r"
    by (auto simp: tool_result_events_def)
qed

lemma last_message_events_InrE:
  assumes "last_message_events st msgs = Inr (evs, st')"
  obtains (ai) ct tcs ev2 seen where "msgs \<noteq> []" "last msgs = AIMessage ct tcs"
      "tool_call_events (current_tool_calls st) tcs = (ev2, seen)"
      "evs = stream_chunk_events (last_ai_content st) (current_content_of ct) @ ev2"
      "st' = st\<lparr>last_ai_content := current_content_of ct, current_tool_calls := seen\<rparr>"
  | (other) "msgs \<noteq> []" "\<forall>ct tcs. last msgs \<noteq> AIMessage ct tcs" "evs = []" "st' = st"
proof (cases "last msgs")
  case (AIMessage ct tcs)
  obtain ev2 seen where "tool_call_events (current_tool_calls st) tcs = (ev2, seen)"
    by (cases "tool_call_events (current_tool_calls st) tcs")
  with assms AIMessage show ?thesis
    by (intro ai [of ct tcs ev2 seen]) (auto simp: last_message_events_def Let_def split: if_splits)
next
  case (ToolMessage i c)
  with assms show ?thesis
    by (intro other) (auto simp: last_message_events_def split: if_splits)
next
  case OtherMessage
  with assms show ?thesis
    by (intro other) (auto simp: last_message_events_def split: if_splits)
qed

lemma process_chunk_InrE:
  assumes "process_chunk st c = Inr (evs, st')"
  obtains ev_m st1 ev_t st2 ev_f where
    "(messages c = None \<and> ev_m = [] \<and> st1 = st) \<or>
     (\<exists>msgs. messages c = Some msgs \<and> last_message_events st msgs = Inr (ev_m, st1))"
    "todos_events st1 (todos c) = (ev_t, st2)"
    "files_events st2 (files c) = (ev_f, st')"
    "evs = ev_m @ (case messages c of None \<Rightarrow> [] | Some msgs \<Rightarrow> tool_result_events msgs) @ ev_t @ ev_f"
  using assms
  by (auto simp: process_chunk_def Let_def split: option.splits sum.splits prod.splits)

lemma process_chunk_Inl:
  "(\<exists>e. process_chunk st c = Inl e) \<longleftrightarrow> messages c = Some []"
  by (auto simp: process_chunk_def last_message_events_def Let_def
      split: option.splits sum.splits prod.splits message.splits)

lemma process_chunk_total:
  assumes "messages c \<noteq> Some []"
  obtains evs st' where "process_chunk st c = Inr (evs, st')"
proof (cases "process_chunk st c")
  case (Inl e)
  with process_chunk_Inl [of st c] assms show ?thesis by blast
next
  case (Inr p)
  then show ?thesis using that by (cases p) simp
qed

lemma todos_events_cases:
  "todos_events st t = (evs, st') \<Longrightarrow>
     evs = (case t of None \<Rightarrow> [] | Some x \<Rightarrow> if x \<noteq> last_todos st then [Todos x] else []) \<and>
     last_todos st' = (case t of None \<Rightarrow> last_todos st | Some x \<Rightarrow> x) \<and>
     last_files st' = last_files st \<and> last_ai_content st' = last_ai_content st \<and>
     current_tool_calls st' = current_tool_calls st"
  by (auto simp: todos_events_def split: option.splits if_splits)

lemma files_events_cases:
  "files_events st t = (evs, st') \<Longrightarrow>
     evs = (case t of None \<Rightarrow> [] | Some x \<Rightarrow> if x \<noteq> last_files st then [Files x] else []) \<and>
     last_files st' = (case t of None \<Rightarrow> last_files st | Some x \<Rightarrow> x) \<and>
     last_todos st' = last_todos st \<and> last_ai_content st' = last_ai_content st \<and>
     current_tool_calls st' = current_tool_calls st"
  by (auto simp: files_events_def split: option.splits if_splits)

lemma stream_chunk_events_cases:
  "stream_chunk_events l c = ([] :: 'v event list) \<or>
   (drop (length l) c \<noteq> [] \<and> stream_chunk_events l c = [StreamChunk (drop (length l) c) c :: 'v event])"
  by (simp add: stream_chunk_events_def Let_def)

text \<open>Every event of a chunk is of one of five kinds; a stream-chunk has a delta.\<close>

lemma process_chunk_event_kind:
  assumes "process_chunk st c = Inr (evs, st')" and "e \<in> set evs"
  shows "(\<exists>d f. e = StreamChunk d f \<and> d \<noteq> []) \<or> (\<exists>n a i. e = ToolCallEvent n a i) \<or>
         (\<exists>i r. e = ToolResultEvent i r) \<or> (\<exists>x. e = Todos x) \<or> (\<exists>x. e = Files x)"
proof -
  from assms(1) obtain ev_m st1 ev_t st2 ev_f where
    m: "(messages c = None \<and> ev_m = [] \<and> st1 = st) \<or>
        (\<exists>msgs. messages c = Some msgs \<and> last_message_events st msgs = Inr (ev_m, st1))"
    and t: "todos_events st1 (todos c) = (ev_t, st2)"
    and f: "files_events st2 (files c) = (ev_f, st')"
    and evs: "evs = ev_m @ (case messages c of None \<Rightarrow> [] | Some msgs \<Rightarrow> tool_result_events msgs) @ ev_t @ ev_f"
    by (rule process_chunk_InrE)
  from assms(2) evs consider "e \<in> set ev_m"
    | "e \<in> set (case messages c of None \<Rightarrow> [] | Some msgs \<Rightarrow> tool_result_events msgs)"
    | "e \<in> set ev_t" | "e \<in> set ev_f"
    by auto
  then show ?thesis
  proof cases
    case 1
    with m obtain msgs where lm: "last_message_events st msgs = Inr (ev_m, st1)" by auto
    from lm show ?thesis
    proof (cases rule: last_message_events_InrE)
      case (ai ct tcs ev2 seen)
      with 1 consider "e \<in> set (stream_chunk_events (last_ai_content st) (current_content_of ct))"
        | "e \<in> set ev2" by auto
      then show ?thesis
      proof cases
        case 1
        then show ?thesis
          using stream_chunk_events_cases [of "last_ai_content st" "current_content_of ct", where ?'v = 'a]
          by auto
      next
        case 2
        with ai(3) show ?thesis by (auto dest: tool_call_events_kind)
      qed
    next
      case other
      with 1 show ?thesis by simp
    qed
  next
    case 2
    then show ?thesis by (auto split: option.splits dest: tool_result_events_kind)
  next
    case 3
    with todos_events_cases [OF t] show ?thesis by (auto split: option.splits if_splits)
  next
    case 4
    with files_events_cases [OF f] show ?thesis by (auto split: option.splits if_splits)
  qed
qed

section \<open>Stream chunks carry text\<close>

lemma stream_loop_Cons_Inr:
  "process_chunk st c = Inr (evs, st') \<Longrightarrow>
     stream_loop st (c # cs) r = (evs @ fst (stream_loop st' cs r), snd (stream_loop st' cs r))"
  by (simp split: prod.splits)

lemma stream_loop_Cons_Inl:
  "process_chunk st c = Inl e \<Longrightarrow> stream_loop st (c # cs) r = except_Exception e"
  by simp

lemma except_Exception_events:
  "fst (except_Exception e :: 'v event list \<times> py_exception option) = [] \<or>
   fst (except_Exception e :: 'v event list \<times> py_exception option) = [Error (exc_str e)]"
  by (simp add: except_Exception_def)

lemma stream_loop_nonempty_delta:
  "StreamChunk d f \<in> set (fst (stream_loop st cs r)) \<Longrightarrow> d \<noteq> []"
proof (induction st cs r rule: stream_loop.induct)
  case (1 st)
  then show ?case by simp
next
  case (2 st e)
  then show ?case by (simp add: except_Exception_def split: if_splits)
next
  case (3 st c cs r)
  show ?case
  proof (cases "process_chunk st c")
    case (Inl e)
    with 3 show ?thesis by (simp add: except_Exception_def split: if_splits)
  next
    case (Inr p)
    obtain evs st' where p: "p = (evs, st')" by (cases p)
    with Inr have pc: "process_chunk st c = Inr (evs, st')" by simp
    from "3.prems" stream_loop_Cons_Inr [OF pc, of cs r]
    have "StreamChunk d f \<in> set evs \<or> StreamChunk d f \<in> set (fst (stream_loop st' cs r))"
      by auto
    then show ?thesis
    proof
      assume "StreamChunk d f \<in> set evs"
      with process_chunk_event_kind [OF pc] show ?thesis by auto
    next
      assume "StreamChunk d f \<in> set (fst (stream_loop st' cs r))"
      with "3.IH" [OF Inr p [symmetric]] show ?thesis by simp
    qed
  qed
qed

text \<open>
  C10. Whatever the agent yields (append-only or not) and however the turn ends, no
  stream-chunk event that \<^verbatim>\<open>stream_response\<close> emits has an empty delta (its
  \<^verbatim>\<open>content\<close> field).
\<close>

theorem stream_chunk_delta_nonempty:
  assumes "stream_response agent_stream handle user_message thread_id = (evs, exc)"
    and "e \<in> set evs" and "e = StreamChunk d f"
  shows "d \<noteq> []"
proof (cases handle)
  case None
  with assms show ?thesis by (simp add: stream_response_def)
next
  case (Some a)
  with assms(1) have "evs = fst (stream_loop initial_state
      (yielded (agent_stream a user_message (config_of thread_id)))
      (raised (agent_stream a user_message (config_of thread_id))))"
    by (simp add: stream_response_def Let_def)
  with assms(2,3) show ?thesis by (auto dest: stream_loop_nonempty_delta)
qed

theorem stream_chunk_delta_nonempty_witness:
  "stream_response (yields [text_snapshot ''Hello'', text_snapshot ''Hello world'']) (Some ()) ''hi'' None
     = ([StreamChunk ''Hello'' ''Hello'', StreamChunk '' world'' ''Hello world'', Complete ''Hello world''],
        None)
   \<and> '' world'' \<noteq> []"
proof -
  have ev: "stream_response (yields [text_snapshot ''Hello'', text_snapshot ''Hello world'']) (Some ()) ''hi'' None
     = ([StreamChunk ''Hello'' ''Hello'', StreamChunk '' world'' ''Hello world'', Complete ''Hello world''],
        None)"
    by (simp add: stream_response_def yields_def text_snapshot_def config_of_def initial_state_def
        process_chunk_def last_message_events_def stream_chunk_events_def todos_events_def
        files_events_def tool_result_events_def Let_def)
  from stream_chunk_delta_nonempty [OF ev, of "StreamChunk '' world'' ''Hello world''" "'' world''" "''Hello world''"]
  show ?thesis using ev by simp
qed

section \<open>Deltas of append-only content\<close>

lemma stream_chunk_deltas_append:
  "stream_chunk_deltas (xs @ ys) = stream_chunk_deltas xs @ stream_chunk_deltas ys"
  by (simp add: stream_chunk_deltas_def)

lemma stream_chunk_deltas_filter:
  "stream_chunk_deltas evs = stream_chunk_deltas (filter is_stream_chunk evs)"
proof (induction evs)
  case Nil
  then show ?case by simp
next
  case (Cons e evs)
  then show ?case by (cases e) (simp_all add: stream_chunk_deltas_def)
qed

lemma filter_stream_chunk_events:
  "filter is_stream_chunk (stream_chunk_events l c) = stream_chunk_events l c"
  by (simp add: stream_chunk_events_def Let_def)

lemma stream_chunk_events_concat:
  "concat (stream_chunk_deltas (stream_chunk_events l c)) = drop (length l) c"
  by (simp add: stream_chunk_events_def stream_chunk_deltas_def Let_def)

lemma process_chunk_content:
  assumes "process_chunk st c = Inr (evs, st')"
  shows "filter is_stream_chunk evs =
           (case snapshot_content c of
              None \<Rightarrow> []
            | Some cur \<Rightarrow> stream_chunk_events (last_ai_content st) cur)"
    and "last_ai_content st' =
           (case snapshot_content c of None \<Rightarrow> last_ai_content st | Some cur \<Rightarrow> cur)"
proof -
  from assms obtain ev_m st1 ev_t st2 ev_f where
    m: "(messages c = None \<and> ev_m = [] \<and> st1 = st) \<or>
        (\<exists>msgs. messages c = Some msgs \<and> last_message_events st msgs = Inr (ev_m, st1))"
    and t: "todos_events st1 (todos c) = (ev_t, st2)"
    and f: "files_events st2 (files c) = (ev_f, st')"
    and evs: "evs = ev_m @ (case messages c of None \<Rightarrow> [] | Some msgs \<Rightarrow> tool_result_events msgs) @ ev_t @ ev_f"
    by (rule process_chunk_InrE)
  have r: "filter is_stream_chunk (case messages c of None \<Rightarrow> [] | Some msgs \<Rightarrow> tool_result_events msgs) = []"
    by (auto simp: filter_empty_conv split: option.splits dest: tool_result_events_kind)
  have tf: "filter is_stream_chunk ev_t = []" "filter is_stream_chunk ev_f = []"
    using todos_events_cases [OF t] files_events_cases [OF f]
    by (auto split: option.splits)
  have st: "last_ai_content st' = last_ai_content st1"
    using todos_events_cases [OF t] files_events_cases [OF f] by simp
  have "filter is_stream_chunk ev_m =
           (case snapshot_content c of
              None \<Rightarrow> []
            | Some cur \<Rightarrow> stream_chunk_events (last_ai_content st) cur) \<and>
        last_ai_content st1 =
           (case snapshot_content c of None \<Rightarrow> last_ai_content st | Some cur \<Rightarrow> cur)"
  proof (cases "messages c")
    case None
    with m show ?thesis by (simp add: snapshot_content_def)
  next
    case (Some msgs)
    with m have lm: "last_message_events st msgs = Inr (ev_m, st1)" by simp
    from lm show ?thesis
    proof (cases rule: last_message_events_InrE)
      case (ai ct tcs ev2 seen)
      have "filter is_stream_chunk ev2 = []"
        using ai(3) by (auto simp: filter_empty_conv dest: tool_call_events_kind)
      with ai Some show ?thesis
        by (simp add: snapshot_content_def filter_stream_chunk_events)
    next
      case other
      with Some show ?thesis
        by (cases "last msgs") (simp_all add: snapshot_content_def)
    qed
  qed
  with evs r tf st show "filter is_stream_chunk evs =
           (case snapshot_content c of
              None \<Rightarrow> []
            | Some cur \<Rightarrow> stream_chunk_events (last_ai_content st) cur)"
    and "last_ai_content st' =
           (case snapshot_content c of None \<Rightarrow> last_ai_content st | Some cur \<Rightarrow> cur)"
    by simp_all
qed

lemma process_chunk_deltas:
  assumes "process_chunk st c = Inr (evs, st')"
  shows "concat (stream_chunk_deltas evs) =
           (case snapshot_content c of
              None \<Rightarrow> []
            | Some cur \<Rightarrow> drop (length (last_ai_content st)) cur)"
proof -
  have "concat (stream_chunk_deltas evs) = concat (stream_chunk_deltas (filter is_stream_chunk evs))"
    using stream_chunk_deltas_filter [of evs] by simp
  also have "\<dots> = (case snapshot_content c of
              None \<Rightarrow> []
            | Some cur \<Rightarrow> drop (length (last_ai_content st)) cur)"
    by (simp add: process_chunk_content(1) [OF assms] stream_chunk_events_concat
        split: option.splits) (simp add: stream_chunk_deltas_def)
  finally show ?thesis .
qed

lemma append_only_last:
  "append_only (x # xs) \<Longrightarrow> take (length x) (last (x # xs)) = x"
proof (induction xs arbitrary: x)
  case Nil
  then show ?case by simp
next
  case (Cons y ys)
  then have xy: "take (length x) y = x" and ys: "append_only (y # ys)" by simp_all
  from Cons.IH [OF ys] have yl: "take (length y) (last (y # ys)) = y" .
  from arg_cong [OF xy, of length] have "length x \<le> length y"
    by simp
  then have "take (length x) (last (y # ys)) = take (length x) (take (length y) (last (y # ys)))"
    by (simp add: min_def)
  with yl xy show ?case by simp
qed

lemma stream_loop_deltas:
  "append_only (last_ai_content st # snapshot_contents (consumed cs)) \<Longrightarrow>
   concat (stream_chunk_deltas (fst (stream_loop st cs r))) =
     drop (length (last_ai_content st)) (last (last_ai_content st # snapshot_contents (consumed cs)))"
proof (induction cs arbitrary: st)
  case Nil
  then show ?case
    by (cases r) (simp_all add: stream_chunk_deltas_def consumed_def except_Exception_def)
next
  case (Cons c cs)
  show ?case
  proof (cases "messages c = Some []")
    case True
    then obtain e where "process_chunk st c = Inl e"
      using process_chunk_Inl [of st c] by blast
    with True show ?thesis
      by (simp add: stream_chunk_deltas_def consumed_def except_Exception_def)
  next
    case False
    then obtain evs st' where pc: "process_chunk st c = Inr (evs, st')"
      by (rule process_chunk_total)
    from False have cons: "consumed (c # cs) = c # consumed cs"
      by (simp add: consumed_def)
    have loop: "fst (stream_loop st (c # cs) r) = evs @ fst (stream_loop st' cs r)"
      using stream_loop_Cons_Inr [OF pc, of cs r] by simp
    show ?thesis
    proof (cases "snapshot_content c")
      case None
      with process_chunk_content(2) [OF pc] have same: "last_ai_content st' = last_ai_content st"
        by simp
      from None process_chunk_deltas [OF pc] have d: "concat (stream_chunk_deltas evs) = []" by simp
      from Cons.prems cons None same
      have "append_only (last_ai_content st' # snapshot_contents (consumed cs))" by simp
      from Cons.IH [OF this] d loop cons None same show ?thesis
        by (simp add: stream_chunk_deltas_append)
    next
      case (Some cur)
      with process_chunk_content(2) [OF pc] have st': "last_ai_content st' = cur" by simp
      from Some process_chunk_deltas [OF pc]
      have d: "concat (stream_chunk_deltas evs) = drop (length (last_ai_content st)) cur" by simp
      let ?rest = "snapshot_contents (consumed cs)"
      from Cons.prems cons Some
      have pre: "take (length (last_ai_content st)) cur = last_ai_content st"
        and ao: "append_only (cur # ?rest)" by simp_all
      from Cons.IH [of st'] ao st'
      have ih: "concat (stream_chunk_deltas (fst (stream_loop st' cs r))) =
                  drop (length cur) (last (cur # ?rest))" by simp
      from append_only_last [OF ao] have fin: "take (length cur) (last (cur # ?rest)) = cur" .
      from arg_cong [OF pre, of length] have le: "length (last_ai_content st) \<le> length cur"
        by simp
      have "drop (length (last_ai_content st)) (last (cur # ?rest)) =
              drop (length (last_ai_content st))
                (take (length cur) (last (cur # ?rest)) @ drop (length cur) (last (cur # ?rest)))"
        by (simp only: append_take_drop_id)
      also have "\<dots> = drop (length (last_ai_content st)) cur @ drop (length cur) (last (cur # ?rest))"
        using le fin by simp
      finally have "drop (length (last_ai_content st)) (last (cur # ?rest)) =
          drop (length (last_ai_content st)) cur @ drop (length cur) (last (cur # ?rest))" .
      with d ih loop cons Some show ?thesis
        by (simp add: stream_chunk_deltas_append)
    qed
  qed
qed

lemma append_only_Nil_Cons: "append_only ([] # xs) = append_only xs"
  by (cases xs) simp_all

lemma stream_loop_deltas_initial:
  assumes "append_only (snapshot_contents (consumed cs))"
  shows "concat (stream_chunk_deltas (fst (stream_loop initial_state cs r))) = final_content (consumed cs)"
  using stream_loop_deltas [of initial_state cs r] assms
  by (simp add: initial_state_def final_content_def append_only_Nil_Cons)

text \<open>
  C1. When the contents of the snapshots that the loop consumes are append-only, the deltas
  of the stream-chunk events of the turn, concatenated in emission order, are exactly the
  content of the final snapshot, however the turn ends.
\<close>

theorem delta_concatenation:
  assumes "append_only
             (snapshot_contents (consumed (yielded (agent_stream a user_message (config_of thread_id)))))"
  shows "\<exists>evs exc. stream_response agent_stream (Some a) user_message thread_id = (evs, exc) \<and>
           concat (stream_chunk_deltas evs) =
             final_content (consumed (yielded (agent_stream a user_message (config_of thread_id))))"
proof -
  let ?src = "agent_stream a user_message (config_of thread_id)"
  have "stream_response agent_stream (Some a) user_message thread_id =
      (fst (stream_loop initial_state (yielded ?src) (raised ?src)),
       snd (stream_loop initial_state (yielded ?src) (raised ?src)))"
    by (simp add: stream_response_def Let_def)
  with stream_loop_deltas_initial [OF assms, of "raised ?src"] show ?thesis by blast
qed

theorem delta_concatenation_witness:
  "append_only (snapshot_contents (consumed [text_snapshot ''Hello'', text_snapshot ''Hello world''])) \<and>
   (\<exists>evs exc. stream_response (yields [text_snapshot ''Hello'', text_snapshot ''Hello world'']) (Some ()) ''hi'' None
            = (evs, exc) \<and>
          concat (stream_chunk_deltas evs) = ''Hello world'')"
proof -
  have y: "yielded (yields [text_snapshot ''Hello'', text_snapshot ''Hello world''] () ''hi'' (config_of None))
      = [text_snapshot ''Hello'', text_snapshot ''Hello world'']"
    by (simp add: yields_def)
  have c: "consumed [text_snapshot ''Hello'', text_snapshot ''Hello world'']
      = [text_snapshot ''Hello'', text_snapshot ''Hello world'']"
    by (simp add: consumed_def text_snapshot_def)
  have s: "snapshot_contents [text_snapshot ''Hello'', text_snapshot ''Hello world'']
      = [''Hello'', ''Hello world'']"
    by (simp add: snapshot_content_def text_snapshot_def)
  have ao: "append_only (snapshot_contents (consumed [text_snapshot ''Hello'', text_snapshot ''Hello world'']))"
    unfolding c s by simp
  have f: "final_content (consumed [text_snapshot ''Hello'', text_snapshot ''Hello world'']) = ''Hello world''"
    unfolding final_content_def c s by simp
  from delta_concatenation [of "yields [text_snapshot ''Hello'', text_snapshot ''Hello world'']" "()" "''hi''" None]
  show ?thesis using ao by (simp only: y f)
qed

section \<open>Terminal events\<close>

lemma process_chunk_no_terminal:
  assumes "process_chunk st c = Inr (evs, st')"
  shows "filter is_terminal evs = []"
proof -
  have "\<not> is_terminal e" if "e \<in> set evs" for e
    using process_chunk_event_kind [OF assms that] by auto
  then show ?thesis by (simp add: filter_empty_conv)
qed


text \<open>
  When no exception leaves the loop, its events end with the one terminal event; when one
  does, there is no terminal event.
\<close>

lemma stream_loop_terminal:
  "(snd (stream_loop st cs r) = None \<longrightarrow>
      fst (stream_loop st cs r) \<noteq> [] \<and>
      filter is_terminal (fst (stream_loop st cs r)) = [last (fst (stream_loop st cs r))]) \<and>
   (snd (stream_loop st cs r) \<noteq> None \<longrightarrow> filter is_terminal (fst (stream_loop st cs r)) = [])"
proof (induction st cs r rule: stream_loop.induct)
  case (1 st)
  then show ?case by simp
next
  case (2 st e)
  then show ?case by (simp add: except_Exception_def)
next
  case (3 st c cs r)
  show ?case
  proof (cases "process_chunk st c")
    case (Inl e)
    then show ?thesis by (simp add: except_Exception_def)
  next
    case (Inr p)
    obtain evs st' where p: "p = (evs, st')" by (cases p)
    with Inr have pc: "process_chunk st c = Inr (evs, st')" by simp
    note ih = "3.IH" [OF Inr p [symmetric]]
    note nt = process_chunk_no_terminal [OF pc]
    from ih nt show ?thesis
      unfolding stream_loop_Cons_Inr [OF pc] by simp
  qed
qed





section \<open>Content that is not append-only\<close>

text \<open>
  C2. For the contents \<^verbatim>\<open>"abc"\<close> then \<^verbatim>\<open>"ab"\<close> the code sees that the content changed
  (line 131), but the slice \<^verbatim>\<open>current_content[len(last_ai_content):]\<close> of line 132 is
  taken without checking that the new content starts with the old one. It is empty here,
  so no second stream-chunk is sent: the second event of the turn is the completion event,
  and the client never receives \<^verbatim>\<open>"ab"\<close> as a stream-chunk.
\<close>

theorem content_rewrite_not_streamed:
  "stream_response (yields [text_snapshot ''abc'', text_snapshot ''ab'']) (Some ()) ''hi'' None
     = ([StreamChunk ''abc'' ''abc'', Complete ''ab''], None)"
  by (simp add: stream_response_def yields_def text_snapshot_def config_of_def initial_state_def
      process_chunk_def last_message_events_def stream_chunk_events_def todos_events_def
      files_events_def tool_result_events_def Let_def)

text \<open>
  When the rewritten content is longer than the old one, the slice cuts it: after
  \<^verbatim>\<open>"abc"\<close>, the content \<^verbatim>\<open>"xyzw"\<close> is streamed as the delta \<^verbatim>\<open>"w"\<close>, which no longer
  concatenates to the \<^verbatim>\<open>fullContent\<close> sent with it.
\<close>

lemma content_rewrite_cut:
  "stream_response (yields [text_snapshot ''abc'', text_snapshot ''xyzw'']) (Some ()) ''hi'' None
     = ([StreamChunk ''abc'' ''abc'', StreamChunk ''w'' ''xyzw'', Complete ''xyzw''], None)"
  by (simp add: stream_response_def yields_def text_snapshot_def config_of_def initial_state_def
      process_chunk_def last_message_events_def stream_chunk_events_def todos_events_def
      files_events_def tool_result_events_def Let_def)

text \<open>
  In general, a snapshot whose content does not start with the recorded one is processed
  without an exception; a stream-chunk is sent for it only if the new content is longer
  than the recorded one, and then carries the new content without its first
  \<^verbatim>\<open>len(last_ai_content)\<close> characters.
\<close>

lemma rewritten_content_slice:
  assumes "snapshot_content c = Some cur"
    and "take (length (last_ai_content st)) cur \<noteq> last_ai_content st"
  shows "\<exists>evs st'. process_chunk st c = Inr (evs, st') \<and>
           last_ai_content st' = cur \<and>
           filter is_stream_chunk evs =
             (if length (last_ai_content st) < length cur
              then [StreamChunk (drop (length (last_ai_content st)) cur) cur]
              else [])"
proof -
  from assms(1) have "messages c \<noteq> Some []"
    by (auto simp: snapshot_content_def)
  then obtain evs st' where pc: "process_chunk st c = Inr (evs, st')"
    by (rule process_chunk_total)
  from assms(2) have ne: "cur \<noteq> last_ai_content st" by auto
  have "filter is_stream_chunk evs = stream_chunk_events (last_ai_content st) cur"
    using process_chunk_content(1) [OF pc] assms(1) by simp
  with ne have "filter is_stream_chunk evs =
             (if length (last_ai_content st) < length cur
              then [StreamChunk (drop (length (last_ai_content st)) cur) cur]
              else [])"
    by (simp add: stream_chunk_events_def Let_def)
  moreover have "last_ai_content st' = cur"
    using process_chunk_content(2) [OF pc] assms(1) by simp
  ultimately show ?thesis using pc by blast
qed

section \<open>Unchanged todos and files\<close>

lemma last_message_events_keeps:
  assumes "last_message_events st msgs = Inr (evs, st')"
  shows "last_todos st' = last_todos st" and "last_files st' = last_files st"
    and "filter is_todos evs = []" and "filter is_files evs = []"
proof -
  from assms have "last_todos st' = last_todos st \<and> last_files st' = last_files st \<and>
      filter is_todos evs = [] \<and> filter is_files evs = []"
  proof (cases rule: last_message_events_InrE)
    case (ai ct tcs ev2 seen)
    have "filter is_todos ev2 = []" "filter is_files ev2 = []"
      using ai(3) by (auto simp: filter_empty_conv dest: tool_call_events_kind)
    with ai show ?thesis
      by (simp add: stream_chunk_events_def Let_def)
  next
    case other
    then show ?thesis by simp
  qed
  then show "last_todos st' = last_todos st" and "last_files st' = last_files st"
    and "filter is_todos evs = []" and "filter is_files evs = []"
    by simp_all
qed

lemma process_chunk_todos_files:
  assumes "process_chunk st c = Inr (evs, st')"
  shows "filter is_todos evs =
           (case todos c of None \<Rightarrow> [] | Some x \<Rightarrow> if x \<noteq> last_todos st then [Todos x] else [])"
    and "last_todos st' = (case todos c of None \<Rightarrow> last_todos st | Some x \<Rightarrow> x)"
    and "filter is_files evs =
           (case files c of None \<Rightarrow> [] | Some x \<Rightarrow> if x \<noteq> last_files st then [Files x] else [])"
    and "last_files st' = (case files c of None \<Rightarrow> last_files st | Some x \<Rightarrow> x)"
proof -
  from assms obtain ev_m st1 ev_t st2 ev_f where
    m: "(messages c = None \<and> ev_m = [] \<and> st1 = st) \<or>
        (\<exists>msgs. messages c = Some msgs \<and> last_message_events st msgs = Inr (ev_m, st1))"
    and t: "todos_events st1 (todos c) = (ev_t, st2)"
    and f: "files_events st2 (files c) = (ev_f, st')"
    and evs: "evs = ev_m @ (case messages c of None \<Rightarrow> [] | Some msgs \<Rightarrow> tool_result_events msgs) @ ev_t @ ev_f"
    by (rule process_chunk_InrE)
  have r: "filter is_todos (case messages c of None \<Rightarrow> [] | Some msgs \<Rightarrow> tool_result_events msgs) = []"
      "filter is_files (case messages c of None \<Rightarrow> [] | Some msgs \<Rightarrow> tool_result_events msgs) = []"
    by (auto simp: filter_empty_conv split: option.splits dest: tool_result_events_kind)
  from m have st1: "last_todos st1 = last_todos st" "last_files st1 = last_files st"
      "filter is_todos ev_m = []" "filter is_files ev_m = []"
    by (auto dest: last_message_events_keeps)
  from todos_events_cases [OF t] st1
  have tc: "ev_t = (case todos c of None \<Rightarrow> [] | Some x \<Rightarrow> if x \<noteq> last_todos st then [Todos x] else [])"
    "last_todos st2 = (case todos c of None \<Rightarrow> last_todos st | Some x \<Rightarrow> x)"
    "last_files st2 = last_files st"
    by (auto split: option.splits)
  from files_events_cases [OF f] tc
  have fc: "ev_f = (case files c of None \<Rightarrow> [] | Some x \<Rightarrow> if x \<noteq> last_files st then [Files x] else [])"
    "last_files st' = (case files c of None \<Rightarrow> last_files st | Some x \<Rightarrow> x)"
    "last_todos st' = (case todos c of None \<Rightarrow> last_todos st | Some x \<Rightarrow> x)"
    by (auto split: option.splits)
  have t1: "filter is_todos ev_t = ev_t" "filter is_files ev_t = []"
    by (simp_all add: tc(1) split: option.splits)
  have f1: "filter is_files ev_f = ev_f" "filter is_todos ev_f = []"
    by (simp_all add: fc(1) split: option.splits)
  show "filter is_todos evs =
           (case todos c of None \<Rightarrow> [] | Some x \<Rightarrow> if x \<noteq> last_todos st then [Todos x] else [])"
    by (simp add: evs r st1 t1 f1) (simp add: tc(1))
  show "last_todos st' = (case todos c of None \<Rightarrow> last_todos st | Some x \<Rightarrow> x)"
    by (rule fc(3))
  show "filter is_files evs =
           (case files c of None \<Rightarrow> [] | Some x \<Rightarrow> if x \<noteq> last_files st then [Files x] else [])"
    by (simp add: evs r st1 t1 f1) (simp add: fc(1))
  show "last_files st' = (case files c of None \<Rightarrow> last_files st | Some x \<Rightarrow> x)"
    by (rule fc(2))
qed

lemma stream_loop_chunk_events:
  "fst (stream_loop st cs r) =
     concat (chunk_events st cs) @ filter is_terminal (fst (stream_loop st cs r))"
proof (induction st cs r rule: stream_loop.induct)
  case (1 st)
  then show ?case by simp
next
  case (2 st e)
  then show ?case by (simp add: except_Exception_def)
next
  case (3 st c cs r)
  show ?case
  proof (cases "process_chunk st c")
    case (Inl e)
    then show ?thesis by (simp add: except_Exception_def)
  next
    case (Inr p)
    obtain evs st' where p: "p = (evs, st')" by (cases p)
    with Inr have pc: "process_chunk st c = Inr (evs, st')" by simp
    have ce: "chunk_events st (c # cs) = evs # chunk_events st' cs"
      using pc by simp
    from "3.IH" [OF Inr p [symmetric]] process_chunk_no_terminal [OF pc] show ?thesis
      unfolding stream_loop_Cons_Inr [OF pc] ce by simp
  qed
qed

lemma chunk_events_same_state:
  "Suc i < length (chunk_events st cs) \<Longrightarrow>
   (todos (cs ! Suc i) = todos (cs ! i) \<longrightarrow> filter is_todos (chunk_events st cs ! Suc i) = []) \<and>
   (files (cs ! Suc i) = files (cs ! i) \<longrightarrow> filter is_files (chunk_events st cs ! Suc i) = [])"
proof (induction cs arbitrary: st i)
  case Nil
  then show ?case by simp
next
  case (Cons c cs)
  from Cons.prems obtain evs st' where pc: "process_chunk st c = Inr (evs, st')"
    by (cases "process_chunk st c") auto
  then have ce: "chunk_events st (c # cs) = evs # chunk_events st' cs" by simp
  show ?case
  proof (cases i)
    case 0
    with Cons.prems ce obtain c2 cs2 where cs: "cs = c2 # cs2"
      by (cases cs) auto
    with Cons.prems ce 0 obtain evs2 st2 where pc2: "process_chunk st' c2 = Inr (evs2, st2)"
      by (cases "process_chunk st' c2") auto
    from process_chunk_todos_files [OF pc] process_chunk_todos_files [OF pc2]
    show ?thesis using 0 cs ce pc2
      by (auto split: option.splits)
  next
    case (Suc j)
    with Cons.prems ce have "Suc j < length (chunk_events st' cs)" by simp
    from Cons.IH [OF this] Suc ce show ?thesis by simp
  qed
qed

text \<open>
  Whenever the key list of a snapshot differs from the key list of the snapshot before it,
  be it only in the order of the keys, a files event with the new list is sent.
\<close>

lemma files_reordered_event:
  assumes "process_chunk st c1 = Inr (evs1, st1)" and "process_chunk st1 c2 = Inr (evs2, st2)"
    and "files c1 = Some ks1" and "files c2 = Some ks2" and "ks2 \<noteq> ks1"
  shows "filter is_files evs2 = [Files ks2]"
  using process_chunk_todos_files(4) [OF assms(1)] process_chunk_todos_files(3) [OF assms(2)]
    assms(3,4,5)
  by simp

text \<open>
  C9, as stated, fails for files: the service compares the lists of the dictionaries' keys,
  in dictionary order. Two consecutive snapshots with the same set of file names in a
  different order yield a second files event.
\<close>

theorem files_order_counterexample:
  "set [''a'', ''b''] = set [''b'', ''a''] \<and>
   stream_response (yields [state_snapshot [] [''a'', ''b''], state_snapshot [] [''b'', ''a'']])
       (Some ()) ''hi'' None
     = ([Files [''a'', ''b''], Files [''b'', ''a''], Complete []], None)"
  by (auto simp add: stream_response_def yields_def state_snapshot_def config_of_def initial_state_def
      process_chunk_def todos_events_def files_events_def Let_def)

text \<open>
  C9, amended. The events of a turn are the events of its snapshots, snapshot by snapshot,
  followed by the terminal event (the last event, when no exception leaves the generator). If two consecutive snapshots have equal todos values, no
  todos event is among the events of the second one; if the lists of their file names
  (the keys of the files dictionaries, in dictionary order) are equal, no files event is
  among the events of the second one.
\<close>

theorem unchanged_state_no_event:
  assumes "Suc i < length (chunk_events initial_state (yielded (agent_stream a user_message (config_of thread_id))))"
  shows "\<exists>evs exc. stream_response agent_stream (Some a) user_message thread_id = (evs, exc) \<and>
           evs = concat (chunk_events initial_state (yielded (agent_stream a user_message (config_of thread_id))))
                   @ filter is_terminal evs \<and>
           (exc = None \<longrightarrow>
            evs = concat (chunk_events initial_state (yielded (agent_stream a user_message (config_of thread_id))))
                    @ [last evs]) \<and>
           (todos (yielded (agent_stream a user_message (config_of thread_id)) ! Suc i) =
              todos (yielded (agent_stream a user_message (config_of thread_id)) ! i) \<longrightarrow>
            filter is_todos
              (chunk_events initial_state (yielded (agent_stream a user_message (config_of thread_id))) ! Suc i) = []) \<and>
           (files (yielded (agent_stream a user_message (config_of thread_id)) ! Suc i) =
              files (yielded (agent_stream a user_message (config_of thread_id)) ! i) \<longrightarrow>
            filter is_files
              (chunk_events initial_state (yielded (agent_stream a user_message (config_of thread_id))) ! Suc i) = [])"
proof -
  let ?src = "agent_stream a user_message (config_of thread_id)"
  define evs where "evs = fst (stream_loop initial_state (yielded ?src) (raised ?src))"
  define exc where "exc = snd (stream_loop initial_state (yielded ?src) (raised ?src))"
  have r: "stream_response agent_stream (Some a) user_message thread_id = (evs, exc)"
    by (simp add: stream_response_def evs_def exc_def Let_def)
  have d: "evs = concat (chunk_events initial_state (yielded ?src)) @ filter is_terminal evs"
    unfolding evs_def by (rule stream_loop_chunk_events)
  have l: "exc = None \<longrightarrow> evs = concat (chunk_events initial_state (yielded ?src)) @ [last evs]"
  proof
    assume "exc = None"
    with stream_loop_terminal [of initial_state "yielded ?src" "raised ?src", folded evs_def exc_def]
    have "filter is_terminal evs = [last evs]" by simp
    with d show "evs = concat (chunk_events initial_state (yielded ?src)) @ [last evs]" by simp
  qed
  from r d l chunk_events_same_state [OF assms] show ?thesis by blast
qed

theorem unchanged_state_no_event_witness:
  "Suc 0 < length (chunk_events initial_state
       [state_snapshot [''t''] [''a''], state_snapshot [''t''] [''a'']]) \<and>
   todos (state_snapshot [''t''] [''a'']) = todos (state_snapshot [''t''] [''a'']) \<and>
   filter is_todos (chunk_events initial_state
       [state_snapshot [''t''] [''a''], state_snapshot [''t''] [''a'']] ! Suc 0) = [] \<and>
   filter is_files (chunk_events initial_state
       [state_snapshot [''t''] [''a''], state_snapshot [''t''] [''a'']] ! Suc 0) = []"
proof -
  let ?cs = "[state_snapshot [''t''] [''a''], state_snapshot [''t''] [''a'']]"
  have y: "yielded (yields ?cs () ''hi'' (config_of None)) = ?cs"
    by (simp add: yields_def)
  have ce: "chunk_events initial_state ?cs = [[Todos [''t''], Files [''a'']], []]"
    by (simp add: state_snapshot_def initial_state_def process_chunk_def todos_events_def
        files_events_def Let_def)
  have len: "Suc 0 < length (chunk_events initial_state (yielded (yields ?cs () ''hi'' (config_of None))))"
    unfolding y ce by simp
  from unchanged_state_no_event [where i = 0 and agent_stream = "yields ?cs" and a = "()"
      and user_message = "''hi''" and thread_id = None] len
  show ?thesis
    unfolding y by (auto simp: ce)
qed

section \<open>Tool events\<close>

lemma pending_ids_append: "pending_ids (xs @ ys) = pending_ids xs @ pending_ids ys"
  by (simp add: pending_ids_def)

lemma tool_call_events_ids:
  "tool_call_events seen tcs = (evs, seen') \<Longrightarrow> distinct (map get_id seen) \<Longrightarrow>
     map get_id seen' = map get_id seen @ pending_ids evs \<and> distinct (map get_id seen')"
proof (induction tcs arbitrary: seen evs)
  case Nil
  then show ?case by (simp add: pending_ids_def)
next
  case (Cons tc tcs)
  show ?case
  proof (cases "get_id tc \<in> set (map get_id seen)")
    case True
    with Cons.prems have "tool_call_events seen tcs = (evs, seen')" by simp
    from Cons.IH [OF this Cons.prems(2)] show ?thesis .
  next
    case False
    obtain evs1 s1 where r: "tool_call_events (seen @ [tc]) tcs = (evs1, s1)"
      by (cases "tool_call_events (seen @ [tc]) tcs")
    with False Cons.prems(1)
    have ev: "evs = ToolCallEvent (get_name tc) (tc_args tc) (get_id tc) # evs1" and "s1 = seen'"
      by simp_all
    with r have r': "tool_call_events (seen @ [tc]) tcs = (evs1, seen')" by simp
    from False Cons.prems(2) have "distinct (map get_id (seen @ [tc]))" by simp
    note ih = Cons.IH [OF r' this]
    from ih [THEN conjunct1]
    have a: "map get_id seen' = map get_id (seen @ [tc]) @ pending_ids evs1" .
    from ih [THEN conjunct2]
    have b: "distinct (map get_id seen')" .
    from ev have "pending_ids evs = get_id tc # pending_ids evs1"
      by (simp add: pending_ids_def)
    with a have "map get_id seen' = map get_id seen @ pending_ids evs" by simp
    then show ?thesis using b by (rule conjI)
  qed
qed

lemma process_chunk_pending:
  assumes "process_chunk st c = Inr (evs, st')" and "distinct (map get_id (current_tool_calls st))"
  shows "map get_id (current_tool_calls st') = map get_id (current_tool_calls st) @ pending_ids evs"
    and "distinct (map get_id (current_tool_calls st'))"
proof -
  from assms(1) obtain ev_m st1 ev_t st2 ev_f where
    m: "(messages c = None \<and> ev_m = [] \<and> st1 = st) \<or>
        (\<exists>msgs. messages c = Some msgs \<and> last_message_events st msgs = Inr (ev_m, st1))"
    and t: "todos_events st1 (todos c) = (ev_t, st2)"
    and f: "files_events st2 (files c) = (ev_f, st')"
    and evs: "evs = ev_m @ (case messages c of None \<Rightarrow> [] | Some msgs \<Rightarrow> tool_result_events msgs) @ ev_t @ ev_f"
    by (rule process_chunk_InrE)
  have r: "pending_ids (case messages c of None \<Rightarrow> [] | Some msgs \<Rightarrow> tool_result_events msgs) = []"
  proof -
    have "pending_id e = []"
      if "e \<in> set (case messages c of None \<Rightarrow> [] | Some msgs \<Rightarrow> tool_result_events msgs)" for e
      using that by (auto split: option.splits dest: tool_result_events_kind)
    then show ?thesis by (simp add: pending_ids_def)
  qed
  have tf: "pending_ids ev_t = []" "pending_ids ev_f = []"
      "current_tool_calls st' = current_tool_calls st1"
    using todos_events_cases [OF t] files_events_cases [OF f]
    by (auto simp: pending_ids_def split: option.splits)
  have "map get_id (current_tool_calls st1) = map get_id (current_tool_calls st) @ pending_ids ev_m \<and>
        distinct (map get_id (current_tool_calls st1))"
  proof (cases "messages c")
    case None
    with m assms(2) show ?thesis by (simp add: pending_ids_def)
  next
    case (Some msgs)
    with m have lm: "last_message_events st msgs = Inr (ev_m, st1)" by simp
    from lm show ?thesis
    proof (cases rule: last_message_events_InrE)
      case (ai ct tcs ev2 seen)
      have "pending_ids (stream_chunk_events (last_ai_content st) (current_content_of ct) :: 'a event list) = []"
        by (simp add: stream_chunk_events_def pending_ids_def Let_def)
      then have "pending_ids ev_m = pending_ids ev2"
        using ai(4) by (simp add: pending_ids_append)
      moreover have "current_tool_calls st1 = seen"
        using ai(5) by simp
      ultimately show ?thesis
        using tool_call_events_ids [OF ai(3) assms(2)] by metis
    next
      case other
      with assms(2) show ?thesis by (simp add: pending_ids_def)
    qed
  qed
  then have a: "map get_id (current_tool_calls st1) = map get_id (current_tool_calls st) @ pending_ids ev_m"
    and b: "distinct (map get_id (current_tool_calls st1))" by (rule conjunct1, rule conjunct2)
  have "pending_ids evs = pending_ids ev_m"
    using evs r tf by (simp add: pending_ids_append)
  with a tf(3)
  show "map get_id (current_tool_calls st') = map get_id (current_tool_calls st) @ pending_ids evs"
    by (simp only:)
  from b tf(3) show "distinct (map get_id (current_tool_calls st'))"
    by (simp only:)
qed

lemma stream_loop_pending:
  "distinct (map get_id (current_tool_calls st)) \<Longrightarrow>
   distinct (map get_id (current_tool_calls st) @ pending_ids (fst (stream_loop st cs r)))"
proof (induction st cs r rule: stream_loop.induct)
  case (1 st)
  then show ?case by (simp add: pending_ids_def)
next
  case (2 st e)
  then show ?case by (simp add: pending_ids_def except_Exception_def)
next
  case (3 st c cs r)
  show ?case
  proof (cases "process_chunk st c")
    case (Inl e)
    with 3 show ?thesis by (simp add: pending_ids_def except_Exception_def)
  next
    case (Inr p)
    obtain evs st' where p: "p = (evs, st')" by (cases p)
    with Inr have pc: "process_chunk st c = Inr (evs, st')" by simp
    note pp = process_chunk_pending [OF pc "3.prems"]
    from "3.IH" [OF Inr p [symmetric] pp(2)]
    have "distinct (map get_id (current_tool_calls st') @ pending_ids (fst (stream_loop st' cs r)))" .
    then have "distinct (map get_id (current_tool_calls st) @ pending_ids evs
        @ pending_ids (fst (stream_loop st' cs r)))"
      by (simp only: pp(1) append_assoc)
    moreover have "fst (stream_loop st (c # cs) r) = evs @ fst (stream_loop st' cs r)"
      using stream_loop_Cons_Inr [OF pc, of cs r] by simp
    ultimately show ?thesis by (simp only: pending_ids_append)
  qed
qed

text \<open>In a turn no tool-call id is reported pending twice.\<close>

lemma pending_at_most_once:
  assumes "stream_response agent_stream h user_message thread_id = (evs, exc)"
  shows "distinct (pending_ids evs)"
proof (cases h)
  case None
  with assms show ?thesis by (simp add: stream_response_def pending_ids_def)
next
  case (Some a)
  with assms have "evs = fst (stream_loop initial_state
      (yielded (agent_stream a user_message (config_of thread_id)))
      (raised (agent_stream a user_message (config_of thread_id))))"
    by (simp add: stream_response_def Let_def)
  with stream_loop_pending [of initial_state] show ?thesis
    by (simp add: initial_state_def)
qed

text \<open>
  C3. The tool-call loop skips the ids it has already reported, but the tool-result loop
  runs over every message of every snapshot. In a turn with one tool call, delivered as
  snapshots of the whole message list, the result of the call \<^verbatim>\<open>t1\<close> is reported when
  it arrives and again with the next snapshot: two completed events for one id.
\<close>

theorem tool_result_repeated:
  "stream_response (yields tool_turn) (Some ()) ''hi'' None
     = ([ToolCallEvent ''read_real_file'' None (IdStr ''t1''),
            ToolResultEvent (IdStr ''t1'') ''ok'',
            StreamChunk ''done'' ''done'',
            ToolResultEvent (IdStr ''t1'') ''ok'',
            Complete ''done''], None)"
  by (simp add: stream_response_def yields_def tool_turn_def config_of_def initial_state_def
      process_chunk_def last_message_events_def stream_chunk_events_def todos_events_def
      files_events_def tool_result_events_def get_id_def get_name_def Let_def)

section \<open>Initialization\<close>

lemma example_init: "new_agent_service example_framework ''/book'' ''fiction'' = Inr example_service"
  by (simp add: new_agent_service_def initialize_agent_def create_file_tools_def
      get_default_model_def example_framework_def example_service_def get_main_agent_prompt_def
      dict_get_def MAIN_AGENT_TEMPLATES_def Let_def)

text \<open>
  A mode outside the available ones selects the fiction instructions, and a constructed
  service stores the mode it was given and has an agent.
\<close>

lemma unrecognized_mode_prompt:
  "mode \<notin> set get_available_modes \<Longrightarrow> get_main_agent_prompt mode = FICTION_MAIN_AGENT"
  by (auto simp: get_available_modes_def get_main_agent_prompt_def dict_get_def
      MAIN_AGENT_TEMPLATES_def)

lemma new_agent_service_mode:
  "new_agent_service fw path mode = Inr svc \<Longrightarrow>
     author_mode svc = mode \<and> resolve fw path = Inr (project_path svc) \<and> agent svc \<noteq> None"
  by (auto simp: new_agent_service_def initialize_agent_def Let_def
      split: option.splits sum.splits prod.splits)

text \<open>
  C5. \<^verbatim>\<open>change_mode\<close> rejects a mode outside \<^verbatim>\<open>get_available_modes()\<close>; the init
  handler and \<^verbatim>\<open>AgentService.__init__\<close> do not check it. An init with the mode
  \<^verbatim>\<open>poetry\<close> succeeds: the agent is built with the fiction instructions, the service
  stores \<^verbatim>\<open>poetry\<close> as its mode and the client is told so.
\<close>

theorem init_unrecognized_mode_accepted:
  "handle_frame example_framework None (InitFrame (Some ''/book'') (Some ''poetry''))
     = ([Initialized ''/book'' ''poetry''],
        Some \<lparr>project_path = ''/book'', author_mode = ''poetry'',
              agent = Some (''/book'', FICTION_MAIN_AGENT)\<rparr>,
        None)"
  by (simp add: falsy_def author_mode_of_def new_agent_service_def initialize_agent_def
      create_file_tools_def get_default_model_def example_framework_def
      get_main_agent_prompt_def dict_get_def MAIN_AGENT_TEMPLATES_def Let_def)

text \<open>
  C8, as stated, fails: an init frame received by a session that already has a service
  builds a new service, replaces the existing one and is answered with
  \<^verbatim>\<open>initialized\<close>, not with an error.
\<close>

theorem init_twice_counterexample:
  "handle_frame example_framework (Some example_service) (InitFrame (Some ''/essay'') (Some ''academic''))
     = ([Initialized ''/essay'' ''academic''],
        Some \<lparr>project_path = ''/essay'', author_mode = ''academic'',
              agent = Some (''/essay'', ACADEMIC_MAIN_AGENT)\<rparr>,
        None)"
  by (simp add: falsy_def author_mode_of_def new_agent_service_def initialize_agent_def
      create_file_tools_def get_default_model_def example_framework_def
      get_main_agent_prompt_def dict_get_def MAIN_AGENT_TEMPLATES_def Let_def)

text \<open>
  C8, amended. An init frame received while a service exists is not rejected.
  \<^item> When it has a project path and the new service is constructed, exactly
    \<^verbatim>\<open>initialized\<close> is sent, with the path and the mode of the frame, and the new service,
    which has an agent and stores that mode, replaces the existing one.
  \<^item> When the construction raises an \<^verbatim>\<open>Exception\<close>, exactly one error is sent, with the
    text of the exception, and the existing service is kept.
  \<^item> When the frame has no project path, exactly one error is sent and the existing
    service is kept.

  In each case the loop goes on.
\<close>

theorem init_replaces_service:
  "(path \<noteq> [] \<and> new_agent_service fw path (author_mode_of mode_opt) = Inr new \<longrightarrow>
      handle_frame fw (Some svc) (InitFrame (Some path) mode_opt)
        = ([Initialized path (author_mode_of mode_opt)], Some new, None) \<and>
      agent new \<noteq> None \<and> author_mode new = author_mode_of mode_opt) \<and>
   (path \<noteq> [] \<and> new_agent_service fw path (author_mode_of mode_opt) = Inl e \<and> is_exception e \<longrightarrow>
      handle_frame fw (Some svc) (InitFrame (Some path) mode_opt)
        = ([Error (''Failed to initialize agent: '' @ exc_str e)], Some svc, None)) \<and>
   (falsy path_opt \<longrightarrow>
      handle_frame fw (Some svc) (InitFrame path_opt mode_opt)
        = ([Error ''project_path is required for initialization''], Some svc, None))"
proof (intro conjI impI)
  assume a: "path \<noteq> [] \<and> new_agent_service fw path (author_mode_of mode_opt) = Inr new"
  then show "handle_frame fw (Some svc) (InitFrame (Some path) mode_opt)
        = ([Initialized path (author_mode_of mode_opt)], Some new, None)"
    by (simp add: falsy_def Let_def)
  from a new_agent_service_mode [of fw path "author_mode_of mode_opt" new]
  show "agent new \<noteq> None" and "author_mode new = author_mode_of mode_opt"
    by simp_all
next
  assume "path \<noteq> [] \<and> new_agent_service fw path (author_mode_of mode_opt) = Inl e \<and> is_exception e"
  then show "handle_frame fw (Some svc) (InitFrame (Some path) mode_opt)
        = ([Error (''Failed to initialize agent: '' @ exc_str e)], Some svc, None)"
    by (simp add: falsy_def Let_def)
next
  assume "falsy path_opt"
  then show "handle_frame fw (Some svc) (InitFrame path_opt mode_opt)
        = ([Error ''project_path is required for initialization''], Some svc, None)"
    by (simp add: Let_def)
qed

theorem init_replaces_service_witness:
  "(''/novel'' \<noteq> [] \<and>
    new_agent_service example_framework ''/novel'' (author_mode_of (Some ''non-fiction''))
      = Inr \<lparr>project_path = ''/novel'', author_mode = ''non-fiction'',
             agent = Some (''/novel'', NON_FICTION_MAIN_AGENT)\<rparr> \<and>
    handle_frame example_framework (Some example_service) (InitFrame (Some ''/novel'') (Some ''non-fiction''))
      = ([Initialized ''/novel'' ''non-fiction''],
         Some \<lparr>project_path = ''/novel'', author_mode = ''non-fiction'',
               agent = Some (''/novel'', NON_FICTION_MAIN_AGENT)\<rparr>,
         None)) \<and>
   (''/unreachable'' \<noteq> [] \<and>
    new_agent_service example_framework ''/unreachable'' (author_mode_of None)
      = Inl (OtherException ''boom'') \<and>
    is_exception (OtherException ''boom'') \<and>
    handle_frame example_framework (Some example_service) (InitFrame (Some ''/unreachable'') None)
      = ([Error ''Failed to initialize agent: boom''], Some example_service, None)) \<and>
   (falsy None \<and>
    handle_frame example_framework (Some example_service) (InitFrame None None)
      = ([Error ''project_path is required for initialization''], Some example_service, None))"
proof -
  have ok: "new_agent_service example_framework ''/novel'' (author_mode_of (Some ''non-fiction''))
      = Inr \<lparr>project_path = ''/novel'', author_mode = ''non-fiction'',
             agent = Some (''/novel'', NON_FICTION_MAIN_AGENT)\<rparr>"
    by (simp add: author_mode_of_def new_agent_service_def initialize_agent_def
        create_file_tools_def get_default_model_def example_framework_def
        get_main_agent_prompt_def dict_get_def MAIN_AGENT_TEMPLATES_def Let_def)
  have bad: "new_agent_service example_framework ''/unreachable'' (author_mode_of None)
      = Inl (OtherException ''boom'')"
    by (simp add: author_mode_of_def new_agent_service_def initialize_agent_def
        create_file_tools_def get_default_model_def example_framework_def Let_def)
  have f: "falsy None" by (simp add: falsy_def)
  note t1 = init_replaces_service [where fw = example_framework and svc = example_service
      and path = "''/novel''" and mode_opt = "Some ''non-fiction''"
      and new = "\<lparr>project_path = ''/novel'', author_mode = ''non-fiction'',
             agent = Some (''/novel'', NON_FICTION_MAIN_AGENT)\<rparr>", THEN conjunct1]
  note t2 = init_replaces_service [where fw = example_framework and svc = example_service
      and path = "''/unreachable''" and mode_opt = None and e = "OtherException ''boom''",
      THEN conjunct2, THEN conjunct1]
  note t3 = init_replaces_service [where fw = example_framework and svc = example_service
      and path_opt = None and mode_opt = None, THEN conjunct2, THEN conjunct2]
  from t1 ok have 1: "handle_frame example_framework (Some example_service)
        (InitFrame (Some ''/novel'') (Some ''non-fiction''))
      = ([Initialized ''/novel'' ''non-fiction''],
         Some \<lparr>project_path = ''/novel'', author_mode = ''non-fiction'',
               agent = Some (''/novel'', NON_FICTION_MAIN_AGENT)\<rparr>,
         None)"
    by (simp add: author_mode_of_def)
  from t2 bad have 2: "handle_frame example_framework (Some example_service)
        (InitFrame (Some ''/unreachable'') None)
      = ([Error ''Failed to initialize agent: boom''], Some example_service, None)"
    by simp
  from t3 f have 3: "handle_frame example_framework (Some example_service) (InitFrame None None)
      = ([Error ''project_path is required for initialization''], Some example_service, None)"
    by simp
  from ok bad f 1 2 3 show ?thesis by simp
qed

section \<open>Changing the project and the mode\<close>

text \<open>
  When resolving the new path raises, \<^verbatim>\<open>change_project\<close> leaves the service as it was.
  When the rebuild raises, after the path was resolved, the service keeps its agent and its
  mode and holds the new path.
\<close>

lemma unresolved_change_project_state:
  "resolve fw new_project_path = Inl e \<Longrightarrow> change_project fw svc new_project_path = (Some e, svc)"
  by (simp add: change_project_def)

lemma failed_change_project_state:
  assumes "change_project fw svc new_project_path = (Some e, svc')"
    and "resolve fw new_project_path = Inr resolved"
  shows "project_path svc' = resolved" and "agent svc' = agent svc"
    and "author_mode svc' = author_mode svc"
  using assms
  by (auto simp: change_project_def initialize_agent_def Let_def split: option.splits sum.splits)

text \<open>
  C6. \<^verbatim>\<open>change_project\<close> assigns the new path before it rebuilds the agent. When the
  rebuild raises, the handler sends one error and the loop goes on with the old agent,
  but the service already holds the new project path.
\<close>

theorem failed_change_project_keeps_new_path:
  "handle_frame example_framework (Some example_service) (ChangeProjectFrame (Some ''/unreachable''))
     = ([Error ''Failed to change project: boom''],
        Some \<lparr>project_path = ''/unreachable'', author_mode = ''fiction'',
              agent = Some (''/book'', FICTION_MAIN_AGENT)\<rparr>,
        None)"
  by (simp add: falsy_def change_project_def initialize_agent_def create_file_tools_def
      get_default_model_def example_framework_def example_service_def Let_def)

text \<open>
  C7. A change\_mode frame whose mode is not one of the available modes, received by a
  session that has a service, is answered with exactly one error frame whose text contains
  the mode (for a non-empty mode the text is the message of the \<^verbatim>\<open>ValueError\<close> of
  \<^verbatim>\<open>change_mode\<close>; an empty mode is answered with \<^verbatim>\<open>mode is required\<close>). The service
  is unchanged, hence so are its mode and its agent; the session keeps it and the loop
  goes on.
\<close>

theorem change_mode_unrecognized:
  assumes "m \<notin> set get_available_modes"
  shows "\<exists>msg. handle_frame fw (Some svc) (ChangeModeFrame (Some m)) = ([Error msg], Some svc, None) \<and>
           msg = (if m = [] then ''mode is required'' else invalid_mode_message m) \<and>
           (\<exists>before after. msg = before @ m @ after)"
proof (cases "m = []")
  case True
  have "''mode is required'' = [] @ [] @ ''mode is required''" by simp
  then have "\<exists>before after. ''mode is required'' = before @ [] @ after" by blast
  with True show ?thesis by (simp add: falsy_def)
next
  case False
  have "invalid_mode_message m = ''Invalid mode '' @ [CHR 0x27] @ m @
      (CHR 0x27 # ''. Available modes: '' @ repr_list get_available_modes)"
    by (simp add: invalid_mode_message_def quoted_def)
  then have "\<exists>before after. invalid_mode_message m = before @ m @ after"
    by (metis append.assoc)
  with False assms show ?thesis
    by (simp add: falsy_def change_mode_def)
qed

theorem change_mode_unrecognized_witness:
  "''poetry'' \<notin> set get_available_modes \<and>
   handle_frame example_framework (Some example_service) (ChangeModeFrame (Some ''poetry''))
     = ([Error (''Invalid mode '' @ quoted ''poetry'' @ ''. Available modes: [''
                 @ quoted ''fiction'' @ '', '' @ quoted ''non-fiction'' @ '', '' @ quoted ''academic'' @ '']'')],
        Some example_service, None)"
proof -
  have n: "''poetry'' \<notin> set get_available_modes"
    by (simp add: get_available_modes_def MAIN_AGENT_TEMPLATES_def)
  have msg: "invalid_mode_message ''poetry'' =
      ''Invalid mode '' @ quoted ''poetry'' @ ''. Available modes: [''
        @ quoted ''fiction'' @ '', '' @ quoted ''non-fiction'' @ '', '' @ quoted ''academic'' @ '']''"
    by (simp add: invalid_mode_message_def repr_list_def get_available_modes_def
        MAIN_AGENT_TEMPLATES_def)
  from change_mode_unrecognized [OF n, of example_framework example_service] n msg
  show ?thesis by auto
qed

end
